theory Spec2Isabelle
  imports Main
begin

section \<open>Python values used by algoritimoST.py\<close>

text \<open>
  The only exception the three functions can raise on lists of integers is the
  IndexError of a subscript out of range.
\<close>

datatype error = IndexError

text \<open>
  The subscript \<^verbatim>\<open>xs[i]\<close> of a list of length \<open>len\<close>: element \<open>i\<close> for
  \<open>0 \<le> i < len\<close>, element \<open>len + i\<close> for \<open>- len \<le> i < 0\<close>, and the
  exception otherwise.
\<close>

definition py_index :: "'a list \<Rightarrow> int \<Rightarrow> error + 'a" where
  "py_index xs i =
     (if 0 \<le> i \<and> i < int (length xs) then Inr (xs ! nat i)
      else if - int (length xs) \<le> i \<and> i < 0 then Inr (xs ! nat (int (length xs) + i))
      else Inl IndexError)"

text \<open>
  The dictionary \<^verbatim>\<open>visitados\<close> maps a vertex to its predecessor, and the
  predecessor of the first vertex is \<^verbatim>\<open>None\<close>. A key that is absent is
  \<open>None\<close>, a key stored with the value \<^verbatim>\<open>None\<close> is \<open>Some None\<close>.
  \<^verbatim>\<open>visitados.get(k)\<close> returns \<^verbatim>\<open>None\<close> in both cases.
\<close>

type_synonym 'v visitados = "'v \<rightharpoonup> 'v option"

definition dict_get :: "'v visitados \<Rightarrow> 'v \<Rightarrow> 'v option" where
  "dict_get visitados k = (case visitados k of None \<Rightarrow> None | Some v \<Rightarrow> v)"

text \<open>
  \<^verbatim>\<open>random.choice(seq)\<close> on a non-empty sequence returns one of its elements.
  The draw of the generator is a parameter \<open>r\<close>: every element of \<open>seq\<close> is
  the choice of some draw, and every draw chooses an element.
\<close>

definition random_choice :: "nat \<Rightarrow> 'a list \<Rightarrow> 'a" where
  "random_choice r seq = seq ! (r mod length seq)"

section \<open>reconstruir_caminho\<close>

text \<open>
  The loop \<^verbatim>\<open>while atual is not None\<close> with the list \<^verbatim>\<open>caminho\<close> it
  appends to. Nothing bounds the loop, so it is a partial function: \<open>None\<close> is
  a loop that never ends.
\<close>

partial_function (option) reconstruir_laco ::
  "'v visitados \<Rightarrow> 'v list \<Rightarrow> 'v option \<Rightarrow> 'v list option" where
  "reconstruir_laco visitados caminho atual =
     (case atual of
        None \<Rightarrow> Some caminho
      | Some a \<Rightarrow> reconstruir_laco visitados (caminho @ [a]) (dict_get visitados a))"

definition reconstruir_caminho :: "'v visitados \<Rightarrow> 'v \<Rightarrow> 'v list option" where
  "reconstruir_caminho visitados vertice_final =
     map_option rev (reconstruir_laco visitados [] (Some vertice_final))"

section \<open>random_walk\<close>

text \<open>
  \<^verbatim>\<open>[idx for idx, conectado in enumerate(linha) if conectado == 1]\<close>
\<close>

definition vizinhos_de :: "int list \<Rightarrow> int list" where
  "vizinhos_de linha = [int idx. (idx, conectado) \<leftarrow> enumerate 0 linha, conectado = 1]"

text \<open>
  \<^verbatim>\<open>if atual not in visitados: visitados[atual] = antecessor\<close>
\<close>

definition registra :: "int visitados \<Rightarrow> int \<Rightarrow> int option \<Rightarrow> int visitados" where
  "registra visitados atual antecessor =
     (if visitados atual = None then visitados(atual \<mapsto> antecessor) else visitados)"

text \<open>
  One pass through the body of the loop of \<^verbatim>\<open>random_walk\<close>, from the state at
  the head of the loop: it raises, returns, or reaches the head of the loop again.
\<close>

datatype passo =
    Falha error
  | Devolve bool "int visitados" int
  | Segue "int visitados" int "int option" int

definition iteracao ::
  "int visitados \<Rightarrow> int list list \<Rightarrow> int \<Rightarrow> int option \<Rightarrow> int \<Rightarrow> int \<Rightarrow> nat \<Rightarrow> passo" where
  "iteracao visitados grafo atual antecessor vertice_final i r =
     (let visitados = registra visitados atual antecessor
      in case py_index grafo atual of
           Inl e \<Rightarrow> Falha e
         | Inr linha \<Rightarrow>
             let vizinhos = vizinhos_de linha
             in if vizinhos = [] then Devolve False visitados i
                else let vizinho = random_choice r vizinhos;
                         i = i + 1
                     in if vizinho = vertice_final
                        then Devolve True (visitados(vizinho \<mapsto> Some atual)) i
                        else Segue visitados vizinho (Some atual) i)"

text \<open>
  The loop \<^verbatim>\<open>while i < (2*(n**3))\<close>. The generator is the sequence \<open>rnd\<close> of
  its draws; an iteration that goes round the loop has used the first one.
\<close>

function random_walk ::
  "int visitados \<Rightarrow> int list list \<Rightarrow> int \<Rightarrow> int option \<Rightarrow> int \<Rightarrow> int \<Rightarrow> int \<Rightarrow> (nat \<Rightarrow> nat)
     \<Rightarrow> error + bool \<times> int visitados \<times> int" where
  "random_walk visitados grafo atual antecessor vertice_final i n rnd =
     (if i < 2 * n ^ 3
      then case iteracao visitados grafo atual antecessor vertice_final i (rnd 0) of
             Falha e \<Rightarrow> Inl e
           | Devolve encontrado v j \<Rightarrow> Inr (encontrado, v, j)
           | Segue v a p j \<Rightarrow> random_walk v grafo a p vertice_final j n (\<lambda>k. rnd (Suc k))
      else Inr (False, visitados, i))"
  by pat_completeness auto
termination
  by (relation "measure (\<lambda>(visitados, grafo, atual, antecessor, vertice_final, i, n, rnd).
                  nat (2 * n ^ 3 - i))")
     (auto simp: iteracao_def Let_def split: sum.splits if_splits)

declare random_walk.simps [simp del]

section \<open>existe_caminho\<close>

text \<open>
  The result is \<open>None\<close> when the call never returns, \<open>Some (Inl e)\<close> when it
  raises \<open>e\<close>, \<open>Some (Inr (encontrado, caminho, i))\<close> when it returns.
\<close>

definition existe_caminho ::
  "int list list \<Rightarrow> int \<Rightarrow> int \<Rightarrow> (nat \<Rightarrow> nat) \<Rightarrow> (error + bool \<times> int list \<times> int) option" where
  "existe_caminho grafo vertice_inicial vertice_final rnd =
     (if vertice_inicial < 0 \<or> vertice_inicial \<ge> int (length grafo)
         \<or> vertice_final < 0 \<or> vertice_final \<ge> int (length grafo)
      then Some (Inr (False, [], 0))
      else let n = int (length grafo)
           in case random_walk Map.empty grafo vertice_inicial None vertice_final 0 n rnd of
                Inl e \<Rightarrow> Some (Inl e)
              | Inr (encontrado, visitados, i) \<Rightarrow>
                  if encontrado
                  then map_option (\<lambda>caminho_indices. Inr (True, caminho_indices, i))
                         (reconstruir_caminho visitados vertice_final)
                  else Some (Inr (False, [], i)))"

section \<open>Observations of a walk\<close>

text \<open>
  The state at the head of the loop of \<^verbatim>\<open>random_walk\<close> after \<open>k\<close> passes
  through its body, when the loop gets that far: the dictionary, the current vertex,
  its predecessor, the counter and the rest of the generator.
\<close>

fun apos ::
  "nat \<Rightarrow> int visitados \<Rightarrow> int list list \<Rightarrow> int \<Rightarrow> int option \<Rightarrow> int \<Rightarrow> int \<Rightarrow> int
     \<Rightarrow> (nat \<Rightarrow> nat) \<Rightarrow> (int visitados \<times> int \<times> int option \<times> int \<times> (nat \<Rightarrow> nat)) option" where
  "apos 0 visitados grafo atual antecessor vertice_final i n rnd =
     Some (visitados, atual, antecessor, i, rnd)"
| "apos (Suc k) visitados grafo atual antecessor vertice_final i n rnd =
     (if i < 2 * n ^ 3
      then case iteracao visitados grafo atual antecessor vertice_final i (rnd 0) of
             Segue v a p j \<Rightarrow> apos k v grafo a p vertice_final j n (\<lambda>k. rnd (Suc k))
           | _ \<Rightarrow> None
      else None)"

text \<open>\<^verbatim>\<open>grafo[a][b] == 1\<close>, evaluated without an exception.\<close>

definition aresta :: "int list list \<Rightarrow> int \<Rightarrow> int \<Rightarrow> bool" where
  "aresta grafo a b =
     (case py_index grafo a of Inl e \<Rightarrow> False | Inr linha \<Rightarrow> py_index linha b = Inr 1)"

text \<open>A sequence of vertices in which each one has an edge to the next.\<close>

fun passeio :: "int list list \<Rightarrow> int list \<Rightarrow> bool" where
  "passeio grafo (a # b # resto) = (aresta grafo a b \<and> passeio grafo (b # resto))"
| "passeio grafo _ = True"

text \<open>
  The specification of \<^verbatim>\<open>reconstruir_caminho\<close> in its own words: \<open>elos\<close> holds
  of the vertices met by following the predecessor links from \<open>atual\<close> up to the
  value \<^verbatim>\<open>None\<close>, in the order they are met.
\<close>

fun elos :: "'v visitados \<Rightarrow> 'v option \<Rightarrow> 'v list \<Rightarrow> bool" where
  "elos visitados atual [] = (atual = None)"
| "elos visitados atual (a # resto) =
     (atual = Some a \<and> elos visitados (dict_get visitados a) resto)"

text \<open>
  The dictionaries a walk from \<open>s\<close> builds: \<open>s\<close> is stored with
  \<^verbatim>\<open>None\<close>, and a vertex that is not yet a key is stored with a key that has an
  edge to it.
\<close>

inductive arvore :: "int list list \<Rightarrow> int \<Rightarrow> int visitados \<Rightarrow> bool"
  for grafo :: "int list list" and s :: int where
  raiz: "arvore grafo s [s \<mapsto> None]"
| filho: "arvore grafo s visitados \<Longrightarrow> visitados q \<noteq> None \<Longrightarrow> visitados v = None
          \<Longrightarrow> aresta grafo q v \<Longrightarrow> arvore grafo s (visitados(v \<mapsto> Some q))"

text \<open>
  What holds at the head of the loop in a walk from \<open>s\<close> to another vertex
  \<open>t\<close>: the target is neither current nor stored; the dictionary is empty before
  the first pass, and afterwards it is a tree in which the current vertex is a key or
  can become one.
\<close>

definition inv_laco ::
  "int list list \<Rightarrow> int \<Rightarrow> int \<Rightarrow> int visitados \<Rightarrow> int \<Rightarrow> int option \<Rightarrow> bool" where
  "inv_laco grafo s t visitados atual antecessor =
     (atual \<noteq> t \<and> visitados t = None \<and>
      ((visitados = Map.empty \<and> atual = s \<and> antecessor = None) \<or>
       (arvore grafo s visitados \<and>
        (visitados atual \<noteq> None \<or>
         (\<exists>q. antecessor = Some q \<and> visitados q \<noteq> None \<and> aresta grafo q atual)))))"

text \<open>
  A dictionary rooted at \<open>s\<close>: every stored predecessor is itself a key, \<open>s\<close> is
  the one key stored with \<^verbatim>\<open>None\<close>, and \<^verbatim>\<open>reconstruir_caminho\<close> returns from
  every key.
\<close>

definition enraizada :: "int \<Rightarrow> int visitados \<Rightarrow> bool" where
  "enraizada s visitados =
     ((\<forall>x q. visitados x = Some (Some q) \<longrightarrow> visitados q \<noteq> None) \<and>
      (\<forall>x. (visitados x = Some None) = (x = s)) \<and>
      (\<forall>x. visitados x \<noteq> None \<longrightarrow> reconstruir_caminho visitados x \<noteq> None))"

section \<open>Neighbours and the body of the loop\<close>

lemma set_vizinhos_de:
  "v \<in> set (vizinhos_de linha) \<longleftrightarrow> 0 \<le> v \<and> nat v < length linha \<and> linha ! nat v = 1"
proof
  assume "v \<in> set (vizinhos_de linha)"
  then obtain idx where "idx < length linha" "linha ! idx = 1" "v = int idx"
    by (auto simp: vizinhos_de_def in_set_enumerate_eq split: if_splits)
  then show "0 \<le> v \<and> nat v < length linha \<and> linha ! nat v = 1" by simp
next
  assume h: "0 \<le> v \<and> nat v < length linha \<and> linha ! nat v = 1"
  then have "(nat v, 1) \<in> set (enumerate 0 linha)"
    by (simp add: in_set_enumerate_eq)
  with h show "v \<in> set (vizinhos_de linha)"
    by (force simp: vizinhos_de_def)
qed

lemma vizinhos_de_Nil: "vizinhos_de linha = [] \<longleftrightarrow> 1 \<notin> set linha"
proof -
  have "vizinhos_de linha = [] \<longleftrightarrow> (\<forall>v. v \<notin> set (vizinhos_de linha))"
    by (cases "vizinhos_de linha") auto
  also have "\<dots> \<longleftrightarrow> 1 \<notin> set linha"
  proof
    assume a: "\<forall>v. v \<notin> set (vizinhos_de linha)"
    show "1 \<notin> set linha"
    proof
      assume "1 \<in> set linha"
      then obtain k where "k < length linha" "linha ! k = 1" by (auto simp: in_set_conv_nth)
      then have "int k \<in> set (vizinhos_de linha)" by (simp add: set_vizinhos_de)
      with a show False by blast
    qed
  next
    assume "1 \<notin> set linha"
    then show "\<forall>v. v \<notin> set (vizinhos_de linha)"
      by (auto simp: set_vizinhos_de dest: nth_mem)
  qed
  finally show ?thesis .
qed

lemma random_choice_in: "seq \<noteq> [] \<Longrightarrow> random_choice r seq \<in> set seq"
  by (simp add: random_choice_def)

lemma aresta_vizinho:
  assumes "py_index grafo a = Inr linha" and "v \<in> set (vizinhos_de linha)"
  shows "aresta grafo a v"
proof -
  from assms(2) have "0 \<le> v" "nat v < length linha" "linha ! nat v = 1"
    by (simp_all add: set_vizinhos_de)
  then have "py_index linha v = Inr 1"
    by (simp add: py_index_def Let_def)
  with assms(1) show ?thesis by (simp add: aresta_def)
qed

lemma iteracao_Segue:
  assumes "iteracao visitados grafo atual antecessor vertice_final i r = Segue v a p j"
  shows "v = registra visitados atual antecessor \<and> p = Some atual \<and> j = i + 1
         \<and> a \<noteq> vertice_final \<and> aresta grafo atual a"
proof -
  from assms obtain linha where l: "py_index grafo atual = Inr linha"
    by (auto simp: iteracao_def Let_def split: sum.splits)
  from assms l have ne: "vizinhos_de linha \<noteq> []"
    by (auto simp: iteracao_def Let_def split: if_splits)
  from assms l ne have a: "a = random_choice r (vizinhos_de linha)"
    and rest: "v = registra visitados atual antecessor" "p = Some atual" "j = i + 1"
       "a \<noteq> vertice_final"
    by (auto simp: iteracao_def Let_def split: if_splits)
  from a ne have "a \<in> set (vizinhos_de linha)" by (simp add: random_choice_in)
  with l have "aresta grafo atual a" by (rule aresta_vizinho)
  with rest show ?thesis by simp
qed

lemma iteracao_Devolve:
  assumes "iteracao visitados grafo atual antecessor vertice_final i r = Devolve f v j"
  shows "(\<not> f \<and> v = registra visitados atual antecessor \<and> j = i
            \<and> (\<exists>linha. py_index grafo atual = Inr linha \<and> vizinhos_de linha = []))
         \<or> (f \<and> v = (registra visitados atual antecessor)(vertice_final \<mapsto> Some atual)
            \<and> j = i + 1 \<and> aresta grafo atual vertice_final)"
proof -
  from assms obtain linha where l: "py_index grafo atual = Inr linha"
    by (auto simp: iteracao_def Let_def split: sum.splits)
  show ?thesis
  proof (cases "vizinhos_de linha = []")
    case True
    with assms l show ?thesis by (auto simp: iteracao_def Let_def)
  next
    case False
    with assms l have t: "random_choice r (vizinhos_de linha) = vertice_final"
      and rest: "f" "v = (registra visitados atual antecessor)(vertice_final \<mapsto> Some atual)"
        "j = i + 1"
      by (auto simp: iteracao_def Let_def split: if_splits)
    from False have "random_choice r (vizinhos_de linha) \<in> set (vizinhos_de linha)"
      by (rule random_choice_in)
    with t l have "aresta grafo atual vertice_final" by (auto intro: aresta_vizinho)
    with rest show ?thesis by simp
  qed
qed

section \<open>Indices out of range\<close>

text \<open>
  C2. When \<open>vertice_inicial\<close> or \<open>vertice_final\<close> is negative or not below the
  number of rows of the graph, \<^verbatim>\<open>existe_caminho\<close> returns \<open>(False, [], 0)\<close>,
  whatever the graph contains and whatever the generator would draw: the result is
  fixed before \<^verbatim>\<open>random_walk\<close> is called.
\<close>

theorem existe_caminho_fora_do_intervalo:
  "vertice_inicial < 0 \<or> vertice_inicial \<ge> int (length grafo)
     \<or> vertice_final < 0 \<or> vertice_final \<ge> int (length grafo)
   \<Longrightarrow> existe_caminho grafo vertice_inicial vertice_final rnd = Some (Inr (False, [], 0))"
  by (simp add: existe_caminho_def)

theorem existe_caminho_fora_do_intervalo_witness:
  "((-1::int) < 0 \<or> (-1::int) \<ge> int (length [[0, 1], [1, 0::int]])
      \<or> (2::int) < 0 \<or> (2::int) \<ge> int (length [[0, 1], [1, 0::int]]))
   \<and> existe_caminho [[0, 1], [1, 0]] (-1) 2 (\<lambda>_. 0) = Some (Inr (False, [], 0))"
  using existe_caminho_fora_do_intervalo [of "-1" "[[0, 1], [1, 0]]" 2 "\<lambda>_. 0"]
  by simp

section \<open>reconstruir_caminho follows the links\<close>

lemma elos_reconstruir_laco:
  "elos visitados atual l \<Longrightarrow> reconstruir_laco visitados caminho atual = Some (caminho @ l)"
proof (induction l arbitrary: caminho atual)
  case Nil
  then show ?case by (simp add: reconstruir_laco.simps)
next
  case (Cons a l)
  from Cons.prems have at: "atual = Some a" and r: "elos visitados (dict_get visitados a) l"
    by simp_all
  from Cons.IH [OF r, of "caminho @ [a]"] at show ?case
    by (simp add: reconstruir_laco.simps)
qed

lemma reconstruir_laco_elos:
  assumes "reconstruir_laco visitados caminho atual = Some r"
  shows "\<exists>l. r = caminho @ l \<and> elos visitados atual l"
proof (rule reconstruir_laco.raw_induct
         [where P = "\<lambda>v c a r. \<exists>l. r = c @ l \<and> elos v a l", OF _ assms])
  fix laco v c a r
  assume IH: "\<And>v' c' a' r'. laco v' c' a' = Some r' \<Longrightarrow> \<exists>l. r' = c' @ l \<and> elos v' a' l"
    and eq: "(case a of None \<Rightarrow> Some c | Some x \<Rightarrow> laco v (c @ [x]) (dict_get v x)) = Some r"
  show "\<exists>l. r = c @ l \<and> elos v a l"
  proof (cases a)
    case None
    with eq show ?thesis by simp
  next
    case (Some x)
    with eq have "laco v (c @ [x]) (dict_get v x) = Some r" by simp
    from IH [OF this] obtain l where "r = (c @ [x]) @ l" "elos v (dict_get v x) l"
      by blast
    with Some have "r = c @ (x # l) \<and> elos v a (x # l)" by simp
    then show ?thesis by blast
  qed
qed

lemma reconstruir_caminho_elos:
  "reconstruir_caminho visitados vertice_final = Some caminho
     \<longleftrightarrow> elos visitados (Some vertice_final) (rev caminho)"
proof
  assume "reconstruir_caminho visitados vertice_final = Some caminho"
  then obtain r where r: "reconstruir_laco visitados [] (Some vertice_final) = Some r" "caminho = rev r"
    by (auto simp: reconstruir_caminho_def)
  from reconstruir_laco_elos [OF r(1)] r(2) show "elos visitados (Some vertice_final) (rev caminho)"
    by auto
next
  assume "elos visitados (Some vertice_final) (rev caminho)"
  from elos_reconstruir_laco [OF this, of "[]"] show "reconstruir_caminho visitados vertice_final = Some caminho"
    by (simp add: reconstruir_caminho_def)
qed

text \<open>
  C7. \<^verbatim>\<open>reconstruir_caminho\<close> is a function of its two arguments alone. It returns
  \<open>caminho\<close> exactly when \<open>caminho\<close> reversed is the sequence of vertices met by
  following the predecessor links from \<open>vertice_final\<close> up to \<^verbatim>\<open>None\<close>; and
  when \<open>vertice_final\<close> is not a key of the dictionary it returns
  \<open>[vertice_final]\<close>.
\<close>

theorem reconstruir_caminho_segue_elos:
  "(reconstruir_caminho visitados vertice_final = Some caminho
      \<longleftrightarrow> elos visitados (Some vertice_final) (rev caminho))
   \<and> (visitados vertice_final = None
      \<longrightarrow> reconstruir_caminho visitados vertice_final = Some [vertice_final])"
proof
  show "reconstruir_caminho visitados vertice_final = Some caminho
      \<longleftrightarrow> elos visitados (Some vertice_final) (rev caminho)"
    by (rule reconstruir_caminho_elos)
  show "visitados vertice_final = None
      \<longrightarrow> reconstruir_caminho visitados vertice_final = Some [vertice_final]"
    by (simp add: reconstruir_caminho_def reconstruir_laco.simps dict_get_def)
qed

theorem reconstruir_caminho_segue_elos_witness:
  "(reconstruir_caminho [''B'' \<mapsto> Some ''A'', ''C'' \<mapsto> Some ''B'', ''D'' \<mapsto> Some ''C''] ''D''
      = Some [''A'', ''B'', ''C'', ''D'']
      \<longleftrightarrow> elos [''B'' \<mapsto> Some ''A'', ''C'' \<mapsto> Some ''B'', ''D'' \<mapsto> Some ''C''] (Some ''D'')
            (rev [''A'', ''B'', ''C'', ''D'']))
   \<and> elos [''B'' \<mapsto> Some ''A'', ''C'' \<mapsto> Some ''B'', ''D'' \<mapsto> Some ''C''] (Some ''D'')
            (rev [''A'', ''B'', ''C'', ''D''])
   \<and> [''B'' \<mapsto> Some ''A'', ''C'' \<mapsto> Some ''B''] ''D'' = None
   \<and> reconstruir_caminho [''B'' \<mapsto> Some ''A'', ''C'' \<mapsto> Some ''B''] ''D'' = Some [''D'']"
  using reconstruir_caminho_segue_elos
          [of "[''B'' \<mapsto> Some ''A'', ''C'' \<mapsto> Some ''B'', ''D'' \<mapsto> Some ''C'']" "''D''"
              "[''A'', ''B'', ''C'', ''D'']"]
        reconstruir_caminho_segue_elos
          [of "[''B'' \<mapsto> Some ''A'', ''C'' \<mapsto> Some ''B'']" "''D''" "[''D'']"]
  by (simp add: dict_get_def)

text \<open>The second example of the docstring: a key stored with \<^verbatim>\<open>None\<close>.\<close>

lemma reconstruir_caminho_docstring_2: "reconstruir_caminho [''B'' \<mapsto> Some ''A'', ''C'' \<mapsto> Some ''B'', ''D'' \<mapsto> None] ''D'' = Some [''D'']"
  by (simp add: reconstruir_caminho_def reconstruir_laco.simps dict_get_def)

section \<open>The counter and the entries of the dictionary\<close>

lemma registra_mantem: "visitados v \<noteq> None \<Longrightarrow> registra visitados atual antecessor v = visitados v"
  by (auto simp: registra_def)

lemma registra_chave: "registra visitados atual antecessor atual \<noteq> None"
  by (simp add: registra_def)

lemma random_walk_sai:
  "\<not> i < 2 * n ^ 3 \<Longrightarrow>
   random_walk visitados grafo atual antecessor vertice_final i n rnd = Inr (False, visitados, i)"
  by (simp add: random_walk.simps)

lemma random_walk_contador:
  "random_walk visitados grafo atual antecessor vertice_final i n rnd = Inr (f, v, j)
   \<Longrightarrow> i \<le> j \<and> (f \<longrightarrow> i < j) \<and> (i \<le> 2 * n ^ 3 \<longrightarrow> j \<le> 2 * n ^ 3)"
proof (induction visitados grafo atual antecessor vertice_final i n rnd rule: random_walk.induct)
  case (1 visitados grafo atual antecessor vertice_final i n rnd)
  show ?case
  proof (cases "i < 2 * n ^ 3")
    case False
    with "1.prems" show ?thesis by (simp add: random_walk.simps)
  next
    case True
    show ?thesis
    proof (cases "iteracao visitados grafo atual antecessor vertice_final i (rnd 0)")
      case (Falha e)
      with True "1.prems" show ?thesis by (simp add: random_walk.simps)
    next
      case (Devolve f' v' j')
      with True "1.prems" have "f' = f" "j' = j" by (simp_all add: random_walk.simps)
      with iteracao_Devolve [OF Devolve] True show ?thesis by auto
    next
      case (Segue v' a' p' j')
      with True "1.prems"
      have "random_walk v' grafo a' p' vertice_final j' n (\<lambda>k. rnd (Suc k)) = Inr (f, v, j)"
        by (simp add: random_walk.simps)
      from "1.IH" [OF True Segue this] iteracao_Segue [OF Segue] True show ?thesis by auto
    qed
  qed
qed

lemma random_walk_mantem:
  "random_walk visitados grafo atual antecessor vertice_final i n rnd = Inr (f, v, j)
   \<Longrightarrow> visitados x \<noteq> None \<Longrightarrow> x \<noteq> vertice_final \<or> \<not> f \<Longrightarrow> v x = visitados x"
proof (induction visitados grafo atual antecessor vertice_final i n rnd rule: random_walk.induct)
  case (1 visitados grafo atual antecessor vertice_final i n rnd)
  show ?case
  proof (cases "i < 2 * n ^ 3")
    case False
    with "1.prems" show ?thesis by (simp add: random_walk.simps)
  next
    case True
    show ?thesis
    proof (cases "iteracao visitados grafo atual antecessor vertice_final i (rnd 0)")
      case (Falha e)
      with True "1.prems" show ?thesis by (simp add: random_walk.simps)
    next
      case (Devolve f' v' j')
      with True "1.prems" have "f' = f" "v' = v" by (simp_all add: random_walk.simps)
      with iteracao_Devolve [OF Devolve] "1.prems"(2,3) show ?thesis
        by (auto simp: registra_mantem)
    next
      case (Segue v' a' p' j')
      with True "1.prems"
      have rw: "random_walk v' grafo a' p' vertice_final j' n (\<lambda>k. rnd (Suc k)) = Inr (f, v, j)"
        by (simp add: random_walk.simps)
      from iteracao_Segue [OF Segue] have v': "v' = registra visitados atual antecessor" by simp
      with "1.prems"(2) have eq: "v' x = visitados x" by (simp add: registra_mantem)
      with "1.prems"(2) have "v' x \<noteq> None" by simp
      from "1.IH" [OF True Segue rw this "1.prems"(3)] eq show ?thesis by simp
    qed
  qed
qed

lemma random_walk_encontrado:
  "random_walk visitados grafo atual antecessor vertice_final i n rnd = Inr (True, v, j)
   \<Longrightarrow> \<exists>c. v vertice_final = Some (Some c) \<and> aresta grafo c vertice_final"
proof (induction visitados grafo atual antecessor vertice_final i n rnd rule: random_walk.induct)
  case (1 visitados grafo atual antecessor vertice_final i n rnd)
  show ?case
  proof (cases "i < 2 * n ^ 3")
    case False
    with "1.prems" show ?thesis by (simp add: random_walk.simps)
  next
    case True
    show ?thesis
    proof (cases "iteracao visitados grafo atual antecessor vertice_final i (rnd 0)")
      case (Falha e)
      with True "1.prems" show ?thesis by (simp add: random_walk.simps)
    next
      case (Devolve f' v' j')
      with True "1.prems" have "f'" "v' = v" by (simp_all add: random_walk.simps)
      with iteracao_Devolve [OF Devolve] show ?thesis by auto
    next
      case (Segue v' a' p' j')
      with True "1.prems"
      have rw: "random_walk v' grafo a' p' vertice_final j' n (\<lambda>k. rnd (Suc k)) = Inr (True, v, j)"
        by (simp add: random_walk.simps)
      from "1.IH" [OF True Segue rw] show ?thesis .
    qed
  qed
qed

lemma apos_random_walk:
  "apos k visitados grafo atual antecessor vertice_final i n rnd = Some (v, a, p, j, rnd')
   \<Longrightarrow> random_walk visitados grafo atual antecessor vertice_final i n rnd
         = random_walk v grafo a p vertice_final j n rnd'
       \<and> j = i + int k \<and> (i \<le> 2 * n ^ 3 \<longrightarrow> j \<le> 2 * n ^ 3)"
proof (induction k arbitrary: visitados atual antecessor i rnd)
  case 0
  then show ?case by simp
next
  case (Suc k)
  from Suc.prems have lt: "i < 2 * n ^ 3" by (simp split: if_splits)
  with Suc.prems obtain v' a' p' j' where
    it: "iteracao visitados grafo atual antecessor vertice_final i (rnd 0) = Segue v' a' p' j'"
    and ap: "apos k v' grafo a' p' vertice_final j' n (\<lambda>k. rnd (Suc k)) = Some (v, a, p, j, rnd')"
    by (auto split: passo.splits)
  from iteracao_Segue [OF it] have j': "j' = i + 1" by simp
  from lt it have "random_walk visitados grafo atual antecessor vertice_final i n rnd
      = random_walk v' grafo a' p' vertice_final j' n (\<lambda>k. rnd (Suc k))"
    by (simp add: random_walk.simps)
  with Suc.IH [OF ap] j' lt show ?case by auto
qed

section \<open>A vertex without neighbours\<close>

lemma py_index_valido: "0 \<le> a \<Longrightarrow> a < int (length xs) \<Longrightarrow> py_index xs a = Inr (xs ! nat a)"
  by (simp add: py_index_def)

lemma limite_positivo: "0 < n \<Longrightarrow> (0::int) < 2 * n ^ 3"
  by simp

text \<open>
  C5. When the loop of \<^verbatim>\<open>random_walk\<close> is entered at a vertex whose row holds no
  \<open>1\<close>, the call returns at once: not found, the dictionary with the current
  vertex recorded, and the counter as it was. So \<^verbatim>\<open>existe_caminho\<close> from a valid
  start vertex without neighbours to a valid target returns \<open>(False, [], 0)\<close>.
\<close>

theorem random_walk_sem_vizinhos:
  "(i < 2 * n ^ 3 \<and> py_index grafo atual = Inr linha \<and> 1 \<notin> set linha
      \<longrightarrow> random_walk visitados grafo atual antecessor vertice_final i n rnd
            = Inr (False, registra visitados atual antecessor, i))
   \<and> (0 \<le> s \<and> s < int (length grafo) \<and> 0 \<le> t \<and> t < int (length grafo)
        \<and> 1 \<notin> set (grafo ! nat s)
      \<longrightarrow> existe_caminho grafo s t rnd = Some (Inr (False, [], 0)))"
proof -
  have passo: "random_walk v g a p vf j m r = Inr (False, registra v a p, j)"
    if "j < 2 * m ^ 3" "py_index g a = Inr l" "1 \<notin> set l" for v g a p vf j m r l
  proof -
    from that(3) have "vizinhos_de l = []" by (simp add: vizinhos_de_Nil)
    with that(2) have "iteracao v g a p vf j (r 0) = Devolve False (registra v a p) j"
      by (simp add: iteracao_def)
    with that(1) show ?thesis by (simp add: random_walk.simps)
  qed
  have "existe_caminho grafo s t rnd = Some (Inr (False, [], 0))"
    if h: "0 \<le> s" "s < int (length grafo)" "0 \<le> t" "t < int (length grafo)"
      "1 \<notin> set (grafo ! nat s)"
  proof -
    from h(1,2) have "0 < int (length grafo)" by linarith
    then have c: "(0::int) < 2 * int (length grafo) ^ 3" by (rule limite_positivo)
    from h(1,2) have "py_index grafo s = Inr (grafo ! nat s)" by (rule py_index_valido)
    from passo [OF c this h(5)] h(1-4) show ?thesis
      by (simp add: existe_caminho_def)
  qed
  with passo show ?thesis by blast
qed

theorem random_walk_sem_vizinhos_witness:
  "((0::int) < 2 * 5 ^ 3
      \<and> py_index [[0, 1, 0, 1, 0], [1, 0, 1, 0, 0], [0, 1, 0, 1, 0], [1, 0, 1, 0, 0],
                   [0, 0, 0, 0, 0]] 4 = Inr [0, 0, 0, 0, 0]
      \<and> (1::int) \<notin> set [0, 0, 0, 0, 0])
   \<and> random_walk Map.empty
        [[0, 1, 0, 1, 0], [1, 0, 1, 0, 0], [0, 1, 0, 1, 0], [1, 0, 1, 0, 0], [0, 0, 0, 0, 0]]
        4 None 0 0 5 (\<lambda>_. 0)
      = Inr (False, registra Map.empty 4 None, 0)
   \<and> ((0::int) \<le> 4 \<and> (4::int) < int (length [[0, 1, 0, 1, 0], [1, 0, 1, 0, 0],
            [0, 1, 0, 1, 0], [1, 0, 1, 0, 0], [0, 0, 0, 0, 0::int]])
        \<and> (0::int) \<le> 0 \<and> (0::int) < int (length [[0, 1, 0, 1, 0], [1, 0, 1, 0, 0],
            [0, 1, 0, 1, 0], [1, 0, 1, 0, 0], [0, 0, 0, 0, 0::int]])
        \<and> (1::int) \<notin> set ([[0, 1, 0, 1, 0], [1, 0, 1, 0, 0], [0, 1, 0, 1, 0],
            [1, 0, 1, 0, 0], [0, 0, 0, 0, 0]] ! nat 4))
   \<and> existe_caminho
        [[0, 1, 0, 1, 0], [1, 0, 1, 0, 0], [0, 1, 0, 1, 0], [1, 0, 1, 0, 0], [0, 0, 0, 0, 0]]
        4 0 (\<lambda>_. 0)
      = Some (Inr (False, [], 0))"
  using random_walk_sem_vizinhos
          [of 0 5 "[[0, 1, 0, 1, 0], [1, 0, 1, 0, 0], [0, 1, 0, 1, 0], [1, 0, 1, 0, 0],
                    [0, 0, 0, 0, 0]]" 4 "[0, 0, 0, 0, 0]" Map.empty None 0 "\<lambda>_. 0" 4 0]
  by (simp add: py_index_def)

section \<open>First visit wins\<close>

text \<open>
  C6. An entry of the dictionary is never changed by a later visit, in one pass through
  the loop and in the whole walk, except the entry of the target: the pass that picks
  the target stores the current vertex there, over whatever was stored before.
\<close>

theorem primeira_visita:
  "(random_walk visitados grafo atual antecessor vertice_final i n rnd = Inr (f, v, j)
      \<and> visitados x \<noteq> None \<and> (x \<noteq> vertice_final \<or> \<not> f)
     \<longrightarrow> v x = visitados x)
   \<and> (random_walk visitados grafo atual antecessor vertice_final i n rnd = Inr (True, v, j)
     \<longrightarrow> (\<exists>c. v vertice_final = Some (Some c)))
   \<and> (iteracao visitados grafo atual antecessor vertice_final i r = Segue w a p k
      \<and> visitados x \<noteq> None
     \<longrightarrow> w x = visitados x)
   \<and> (iteracao visitados grafo atual antecessor vertice_final i r = Devolve True w k
     \<longrightarrow> w vertice_final = Some (Some atual)
         \<and> (visitados x \<noteq> None \<and> x \<noteq> vertice_final \<longrightarrow> w x = visitados x))"
proof (intro conjI impI)
  assume "random_walk visitados grafo atual antecessor vertice_final i n rnd = Inr (f, v, j)
      \<and> visitados x \<noteq> None \<and> (x \<noteq> vertice_final \<or> \<not> f)"
  then show "v x = visitados x" by (blast intro: random_walk_mantem)
next
  assume "random_walk visitados grafo atual antecessor vertice_final i n rnd = Inr (True, v, j)"
  from random_walk_encontrado [OF this] show "\<exists>c. v vertice_final = Some (Some c)" by blast
next
  assume "iteracao visitados grafo atual antecessor vertice_final i r = Segue w a p k
      \<and> visitados x \<noteq> None"
  then show "w x = visitados x" by (auto dest: iteracao_Segue simp: registra_mantem)
next
  assume "iteracao visitados grafo atual antecessor vertice_final i r = Devolve True w k"
  from iteracao_Devolve [OF this] show "w vertice_final = Some (Some atual)" by auto
next
  assume a: "iteracao visitados grafo atual antecessor vertice_final i r = Devolve True w k"
    and "visitados x \<noteq> None \<and> x \<noteq> vertice_final"
  with iteracao_Devolve [OF a] show "w x = visitados x" by (auto simp: registra_mantem)
qed

theorem primeira_visita_witness:
  "(random_walk [0 \<mapsto> None, 1 \<mapsto> Some 0] [[0, 1], [1, 0]] 1 (Some 0) 0 1 2 (\<lambda>_. 0)
      = Inr (True, [0 \<mapsto> None, 1 \<mapsto> Some 0, 0 \<mapsto> Some 1], 2)
    \<and> [0 \<mapsto> None, 1 \<mapsto> Some (0::int)] (1::int) \<noteq> None \<and> (1::int) \<noteq> 0)
   \<and> [0 \<mapsto> None, 1 \<mapsto> Some 0, 0 \<mapsto> Some 1] (1::int) = [0 \<mapsto> None, 1 \<mapsto> Some (0::int)] 1
   \<and> (\<exists>c. [0 \<mapsto> None, 1 \<mapsto> Some 0, 0 \<mapsto> Some (1::int)] (0::int) = Some (Some c))
   \<and> iteracao [0 \<mapsto> None, 1 \<mapsto> Some 0] [[0, 1], [1, 0]] 1 (Some 0) 0 1 0
      = Devolve True [0 \<mapsto> None, 1 \<mapsto> Some 0, 0 \<mapsto> Some 1] 2
   \<and> [0 \<mapsto> None, 1 \<mapsto> Some 0, 0 \<mapsto> Some (1::int)] (0::int) = Some (Some 1)
   \<and> (iteracao [0 \<mapsto> None] [[0, 1, 0], [1, 0, 1], [0, 1, 0]] 0 None 2 0 0
      = Segue [0 \<mapsto> None] 1 (Some 0) 1
    \<and> [0 \<mapsto> (None :: int option)] (0::int) \<noteq> None)
   \<and> [0 \<mapsto> (None :: int option)] (0::int) = [0 \<mapsto> None] 0"
  using primeira_visita
          [of "[0 \<mapsto> None, 1 \<mapsto> Some 0]" "[[0, 1], [1, 0]]" 1 "Some 0" 0 1 2 "\<lambda>_. 0" True
              "[0 \<mapsto> None, 1 \<mapsto> Some 0, 0 \<mapsto> Some 1]" 2 1 0
              "[0 \<mapsto> None, 1 \<mapsto> Some 0, 0 \<mapsto> Some 1]" 0 None 2]
        primeira_visita
          [of "[0 \<mapsto> None]" "[[0, 1, 0], [1, 0, 1], [0, 1, 0]]" 0 None 2 0 2 "\<lambda>_. 0" False
              "[0 \<mapsto> None]" 0 0 0 "[0 \<mapsto> None]" 1 "Some 0" 1]
  by (simp add: random_walk.simps iteracao_def registra_def py_index_def vizinhos_de_def
        random_choice_def enumerate_eq_zip)

section \<open>A walk that finds the target has taken a step\<close>

text \<open>
  C10. When \<^verbatim>\<open>random_walk\<close> returns found, the counter it returns is greater than
  the one it was called with; so \<^verbatim>\<open>existe_caminho\<close> never returns found with
  \<open>0\<close> iterations.
\<close>

theorem encontrado_conta:
  "(random_walk visitados grafo atual antecessor vertice_final i n rnd = Inr (True, v, j)
      \<longrightarrow> i < j)
   \<and> existe_caminho g s t r \<noteq> Some (Inr (True, caminho, 0))"
proof
  show "random_walk visitados grafo atual antecessor vertice_final i n rnd = Inr (True, v, j)
      \<longrightarrow> i < j"
    by (auto dest: random_walk_contador)
  show "existe_caminho g s t r \<noteq> Some (Inr (True, caminho, 0))"
  proof
    assume e: "existe_caminho g s t r = Some (Inr (True, caminho, 0))"
    then obtain w where "random_walk Map.empty g s None t 0 (int (length g)) r = Inr (True, w, 0)"
      by (auto simp: existe_caminho_def Let_def split: if_splits sum.splits)
    from random_walk_contador [OF this] show False by simp
  qed
qed

theorem encontrado_conta_witness:
  "random_walk Map.empty [[0, 1, 1, 0], [1, 0, 0, 1], [1, 0, 0, 1], [0, 1, 1, 0]] 0 None 3 0 4
       (\<lambda>_. 1)
     = Inr (True, [0 \<mapsto> None, 2 \<mapsto> Some 0, 3 \<mapsto> Some 2], 2)
   \<and> (0::int) < 2
   \<and> existe_caminho [[0, 1, 1, 0], [1, 0, 0, 1], [1, 0, 0, 1], [0, 1, 1, 0]] 0 3 (\<lambda>_. 1)
       \<noteq> Some (Inr (True, [0, 2, 3], 0))"
  using encontrado_conta
          [of Map.empty "[[0, 1, 1, 0], [1, 0, 0, 1], [1, 0, 0, 1], [0, 1, 1, 0]]" 0 None 3 0 4
              "\<lambda>_. 1" "[0 \<mapsto> None, 2 \<mapsto> Some 0, 3 \<mapsto> Some 2]" 2
              "[[0, 1, 1, 0], [1, 0, 0, 1], [1, 0, 0, 1], [0, 1, 1, 0]]" 0 3 "\<lambda>_. 1" "[0, 2, 3]"]
  by (simp add: random_walk.simps iteracao_def registra_def py_index_def vizinhos_de_def
        random_choice_def enumerate_eq_zip)

section \<open>The cap on the counter\<close>

text \<open>
  C8. In a walk started with the counter at \<open>0\<close> and \<open>0 \<le> n\<close>: after \<open>k\<close>
  passes through the loop the counter is \<open>k\<close> and at most \<open>2 * n ^ 3\<close>; when the
  test of the loop fails there, the counter equals \<open>2 * n ^ 3\<close> and
  \<^verbatim>\<open>random_walk\<close> returns not found with that counter and the dictionary built so
  far; and no result carries a counter above \<open>2 * n ^ 3\<close>.
\<close>

theorem limite_de_iteracoes:
  assumes "0 \<le> n"
  shows "(apos k visitados grafo atual antecessor vertice_final 0 n rnd = Some (v, a, p, j, rnd')
          \<longrightarrow> j = int k \<and> j \<le> 2 * n ^ 3
              \<and> (\<not> j < 2 * n ^ 3
                  \<longrightarrow> j = 2 * n ^ 3
                      \<and> random_walk visitados grafo atual antecessor vertice_final 0 n rnd
                          = Inr (False, v, 2 * n ^ 3)))
         \<and> (random_walk visitados grafo atual antecessor vertice_final 0 n rnd = Inr (f, w, j')
          \<longrightarrow> 0 \<le> j' \<and> j' \<le> 2 * n ^ 3)"
proof -
  from assms have c: "(0::int) \<le> 2 * n ^ 3" by simp
  have "j = int k \<and> j \<le> 2 * n ^ 3
              \<and> (\<not> j < 2 * n ^ 3
                  \<longrightarrow> j = 2 * n ^ 3
                      \<and> random_walk visitados grafo atual antecessor vertice_final 0 n rnd
                          = Inr (False, v, 2 * n ^ 3))"
    if ap: "apos k visitados grafo atual antecessor vertice_final 0 n rnd = Some (v, a, p, j, rnd')"
  proof -
    from apos_random_walk [OF ap] c
    have eq: "random_walk visitados grafo atual antecessor vertice_final 0 n rnd
                = random_walk v grafo a p vertice_final j n rnd'"
      and j: "j = int k" "j \<le> 2 * n ^ 3" by simp_all
    have "j = 2 * n ^ 3 \<and> random_walk visitados grafo atual antecessor vertice_final 0 n rnd
                          = Inr (False, v, 2 * n ^ 3)" if "\<not> j < 2 * n ^ 3"
    proof -
      from that j(2) have "j = 2 * n ^ 3" by simp
      with eq random_walk_sai [OF that, of v grafo a p vertice_final rnd'] show ?thesis by simp
    qed
    with j show ?thesis by blast
  qed
  moreover have "0 \<le> j' \<and> j' \<le> 2 * n ^ 3"
    if "random_walk visitados grafo atual antecessor vertice_final 0 n rnd = Inr (f, w, j')"
    using random_walk_contador [OF that] c by simp
  ultimately show ?thesis by blast
qed

theorem limite_de_iteracoes_witness:
  "(0::int) \<le> 2
   \<and> apos 16 Map.empty [[1, 0], [0, 0]] 0 None 1 0 2 (\<lambda>_. 0)
       = Some ([0 \<mapsto> None], 0, Some 0, 16, \<lambda>_. 0)
   \<and> \<not> (16::int) < 2 * 2 ^ 3
   \<and> random_walk Map.empty [[1, 0], [0, 0]] 0 None 1 0 2 (\<lambda>_. 0)
       = Inr (False, [0 \<mapsto> None], 2 * 2 ^ 3)"
  using limite_de_iteracoes
          [of 2 16 Map.empty "[[1, 0], [0, 0]]" 0 None 1 "\<lambda>_. 0" "[0 \<mapsto> None]" 0 "Some 0" 16
              "\<lambda>_. 0"]
  by (simp add: eval_nat_numeral iteracao_def registra_def py_index_def vizinhos_de_def
        random_choice_def enumerate_eq_zip)

section \<open>The dictionary of a walk is a tree\<close>

lemma arvore_raiz_chave: "arvore grafo s visitados \<Longrightarrow> visitados s = Some None"
  by (induction rule: arvore.induct) auto

lemma arvore_raiz_unica: "arvore grafo s visitados \<Longrightarrow> visitados x = Some None \<Longrightarrow> x = s"
  by (induction rule: arvore.induct) (auto split: if_splits)

lemma arvore_raiz: "arvore grafo s visitados \<Longrightarrow> (visitados x = Some None) = (x = s)"
  by (auto dest: arvore_raiz_unica simp: arvore_raiz_chave)

lemma arvore_fecho:
  "arvore grafo s visitados \<Longrightarrow> visitados x = Some (Some q) \<Longrightarrow> visitados q \<noteq> None"
  by (induction arbitrary: x q rule: arvore.induct) (auto split: if_splits)

lemma elos_atualiza:
  "elos visitados atual l \<Longrightarrow> v \<notin> set l \<Longrightarrow> elos (visitados(v \<mapsto> y)) atual l"
  by (induction l arbitrary: atual) (auto simp: dict_get_def)

lemma passeio_snoc:
  "passeio grafo (c @ [v]) = (passeio grafo c \<and> (c \<noteq> [] \<longrightarrow> aresta grafo (last c) v))"
  by (induction grafo c rule: passeio.induct) auto

lemma passeio_nth:
  "passeio grafo c \<Longrightarrow> Suc k < length c \<Longrightarrow> aresta grafo (c ! k) (c ! Suc k)"
proof (induction grafo c arbitrary: k rule: passeio.induct)
  case (1 grafo a b resto)
  then show ?case by (cases k) auto
qed auto

lemma elos_ultimo: "elos visitados (Some v) (rev c) \<Longrightarrow> c \<noteq> [] \<and> last c = v"
  by (cases c rule: rev_cases) auto

lemma arvore_caminho:
  "arvore grafo s visitados \<Longrightarrow> visitados x \<noteq> None \<Longrightarrow>
   \<exists>c. elos visitados (Some x) (rev c) \<and> (\<forall>y \<in> set c. visitados y \<noteq> None)
        \<and> hd c = s \<and> passeio grafo c"
proof (induction arbitrary: x rule: arvore.induct)
  case raiz
  then have "x = s" by (auto split: if_splits)
  then have "elos [s \<mapsto> None] (Some x) (rev [s]) \<and> (\<forall>y \<in> set [s]. [s \<mapsto> None] y \<noteq> None)
        \<and> hd [s] = s \<and> passeio grafo [s]"
    by (simp add: dict_get_def)
  then show ?case by blast
next
  case (filho visitados q v)
  show ?case
  proof (cases "x = v")
    case True
    from filho.IH [OF filho.hyps(2)] obtain c where
      c: "elos visitados (Some q) (rev c)" "\<forall>y \<in> set c. visitados y \<noteq> None"
         "hd c = s" "passeio grafo c"
      by blast
    from c(1) have ne: "c \<noteq> []" and lq: "last c = q" by (auto dest: elos_ultimo)
    from c(2) filho.hyps(3) have "v \<notin> set (rev c)" by auto
    with c(1) have "elos (visitados(v \<mapsto> Some q)) (Some q) (rev c)" by (rule elos_atualiza)
    then have 1: "elos (visitados(v \<mapsto> Some q)) (Some x) (rev (c @ [v]))"
      using True by (simp add: dict_get_def)
    from c(2) have 2: "\<forall>y \<in> set (c @ [v]). (visitados(v \<mapsto> Some q)) y \<noteq> None" by simp
    from ne c(3) have 3: "hd (c @ [v]) = s" by simp
    from c(4) lq filho.hyps(4) have 4: "passeio grafo (c @ [v])" by (simp add: passeio_snoc)
    from 1 2 3 4 show ?thesis by blast
  next
    case False
    with filho.prems have "visitados x \<noteq> None" by simp
    from filho.IH [OF this] obtain c where
      c: "elos visitados (Some x) (rev c)" "\<forall>y \<in> set c. visitados y \<noteq> None"
         "hd c = s" "passeio grafo c"
      by blast
    from c(2) filho.hyps(3) have "v \<notin> set (rev c)" by auto
    with c(1) have 1: "elos (visitados(v \<mapsto> Some q)) (Some x) (rev c)" by (rule elos_atualiza)
    from c(2) have 2: "\<forall>y \<in> set c. (visitados(v \<mapsto> Some q)) y \<noteq> None" by simp
    from 1 2 c(3,4) show ?thesis by blast
  qed
qed

lemma arvore_reconstruir:
  assumes "arvore grafo s visitados" and "visitados x \<noteq> None"
  shows "\<exists>c. reconstruir_caminho visitados x = Some c \<and> c \<noteq> [] \<and> hd c = s \<and> last c = x
             \<and> passeio grafo c"
proof -
  from arvore_caminho [OF assms] obtain c where
    c: "elos visitados (Some x) (rev c)" "hd c = s" "passeio grafo c"
    by blast
  from c(1) have "reconstruir_caminho visitados x = Some c" by (simp add: reconstruir_caminho_elos)
  with c elos_ultimo [OF c(1)] show ?thesis by simp
qed

section \<open>The invariant of the loop\<close>

lemma inv_laco_inicio: "s \<noteq> t \<Longrightarrow> inv_laco grafo s t Map.empty s None"
  by (simp add: inv_laco_def)

lemma inv_laco_registra:
  assumes "inv_laco grafo s t visitados atual antecessor"
  shows "arvore grafo s (registra visitados atual antecessor)
         \<and> registra visitados atual antecessor t = None"
proof -
  from assms have t: "atual \<noteq> t" "visitados t = None" by (simp_all add: inv_laco_def)
  from assms consider
      (vazio) "visitados = Map.empty" "atual = s" "antecessor = None"
    | (chave) "arvore grafo s visitados" "visitados atual \<noteq> None"
    | (novo) q where "arvore grafo s visitados" "visitados atual = None" "antecessor = Some q"
        "visitados q \<noteq> None" "aresta grafo q atual"
    by (auto simp: inv_laco_def)
  then show ?thesis
  proof cases
    case vazio
    with t show ?thesis by (auto simp: registra_def intro: arvore.raiz)
  next
    case chave
    with t show ?thesis by (auto simp: registra_def)
  next
    case novo
    from arvore.filho [OF novo(1,4,2,5)] novo(2,3) t show ?thesis by (simp add: registra_def)
  qed
qed

lemma inv_laco_Segue:
  assumes "inv_laco grafo s t visitados atual antecessor"
    and "iteracao visitados grafo atual antecessor t i r = Segue v a p j"
  shows "inv_laco grafo s t v a p \<and> arvore grafo s v"
proof -
  from iteracao_Segue [OF assms(2)] have
    v: "v = registra visitados atual antecessor" and p: "p = Some atual" and a: "a \<noteq> t"
    and e: "aresta grafo atual a" by simp_all
  from inv_laco_registra [OF assms(1)] v have ar: "arvore grafo s v" and vt: "v t = None"
    by simp_all
  from v have "v atual \<noteq> None" by (simp add: registra_chave)
  with ar vt p a e show ?thesis by (auto simp: inv_laco_def)
qed

lemma inv_laco_Devolve:
  assumes "inv_laco grafo s t visitados atual antecessor"
    and "iteracao visitados grafo atual antecessor t i r = Devolve f v j"
  shows "arvore grafo s v \<and> (f \<longrightarrow> v t \<noteq> None)"
proof -
  let ?w = "registra visitados atual antecessor"
  from inv_laco_registra [OF assms(1)] have ar: "arvore grafo s ?w" and wt: "?w t = None"
    by simp_all
  have k: "?w atual \<noteq> None" by (rule registra_chave)
  from iteracao_Devolve [OF assms(2)] consider
      (nao) "\<not> f" "v = ?w"
    | (sim) "f" "v = ?w(t \<mapsto> Some atual)" "aresta grafo atual t"
    by blast
  then show ?thesis
  proof cases
    case nao
    with ar show ?thesis by simp
  next
    case sim
    from arvore.filho [OF ar k wt sim(3)] sim(1,2) show ?thesis by simp
  qed
qed

lemma random_walk_arvore:
  "inv_laco grafo s t visitados atual antecessor \<Longrightarrow> i < 2 * n ^ 3 \<or> arvore grafo s visitados
   \<Longrightarrow> random_walk visitados grafo atual antecessor t i n rnd = Inr (f, v, j)
   \<Longrightarrow> arvore grafo s v \<and> (f \<longrightarrow> v t \<noteq> None)"
proof (induction visitados grafo atual antecessor t i n rnd rule: random_walk.induct)
  case (1 visitados grafo atual antecessor t i n rnd)
  show ?case
  proof (cases "i < 2 * n ^ 3")
    case False
    with "1.prems" show ?thesis by (simp add: random_walk.simps)
  next
    case True
    show ?thesis
    proof (cases "iteracao visitados grafo atual antecessor t i (rnd 0)")
      case (Falha e)
      with True "1.prems" show ?thesis by (simp add: random_walk.simps)
    next
      case (Devolve f' v' j')
      with True "1.prems"(3) have "f' = f" "v' = v" by (simp_all add: random_walk.simps)
      with inv_laco_Devolve [OF "1.prems"(1) Devolve] show ?thesis by simp
    next
      case (Segue v' a' p' j')
      with True "1.prems"(3)
      have rw: "random_walk v' grafo a' p' t j' n (\<lambda>k. rnd (Suc k)) = Inr (f, v, j)"
        by (simp add: random_walk.simps)
      from inv_laco_Segue [OF "1.prems"(1) Segue]
      have "inv_laco grafo s t v' a' p'" "j' < 2 * n ^ 3 \<or> arvore grafo s v'" by simp_all
      from "1.IH" [OF True Segue this rw] show ?thesis .
    qed
  qed
qed

lemma apos_inv_laco:
  "inv_laco grafo s t visitados atual antecessor
   \<Longrightarrow> apos k visitados grafo atual antecessor t i n rnd = Some (v, a, p, j, rnd')
   \<Longrightarrow> inv_laco grafo s t v a p \<and> (0 < k \<longrightarrow> arvore grafo s v)"
proof (induction k arbitrary: visitados atual antecessor i rnd)
  case 0
  then show ?case by simp
next
  case (Suc k)
  from Suc.prems(2) have lt: "i < 2 * n ^ 3" by (simp split: if_splits)
  with Suc.prems(2) obtain v' a' p' j' where
    it: "iteracao visitados grafo atual antecessor t i (rnd 0) = Segue v' a' p' j'"
    and ap: "apos k v' grafo a' p' t j' n (\<lambda>k. rnd (Suc k)) = Some (v, a, p, j, rnd')"
    by (auto split: passo.splits)
  from inv_laco_Segue [OF Suc.prems(1) it]
  have i': "inv_laco grafo s t v' a' p'" and ar: "arvore grafo s v'" by simp_all
  from Suc.IH [OF i' ap] have r: "inv_laco grafo s t v a p" "0 < k \<longrightarrow> arvore grafo s v"
    by simp_all
  show ?case
  proof (cases k)
    case 0
    with ap ar r show ?thesis by simp
  next
    case (Suc m)
    with r show ?thesis by simp
  qed
qed

lemma arvore_enraizada: "arvore grafo s visitados \<Longrightarrow> enraizada s visitados"
  unfolding enraizada_def
  by (auto dest: arvore_fecho arvore_reconstruir simp: arvore_raiz)

section \<open>The path of a successful query\<close>

text \<open>
  C1. For valid and distinct \<open>s\<close> and \<open>t\<close>, every graph and every generator:
  when \<^verbatim>\<open>existe_caminho\<close> returns found with \<open>caminho\<close>, then
  \<^verbatim>\<open>caminho[0]\<close> is \<open>s\<close>, \<^verbatim>\<open>caminho[-1]\<close> is \<open>t\<close>, and
  \<^verbatim>\<open>grafo[caminho[k]][caminho[k+1]] == 1\<close> for all consecutive elements.
\<close>

theorem existe_caminho_passeio:
  assumes "0 \<le> s" "s < int (length grafo)" "0 \<le> t" "t < int (length grafo)" "s \<noteq> t"
    and "existe_caminho grafo s t rnd = Some (Inr (True, caminho, i))"
  shows "py_index caminho 0 = Inr s \<and> py_index caminho (- 1) = Inr t
         \<and> (\<forall>k. Suc k < length caminho \<longrightarrow> aresta grafo (caminho ! k) (caminho ! Suc k))"
proof -
  let ?n = "int (length grafo)"
  from assms(1-4,6) obtain v where
    rw: "random_walk Map.empty grafo s None t 0 ?n rnd = Inr (True, v, i)"
    and rc: "reconstruir_caminho v t = Some caminho"
    by (auto simp: existe_caminho_def Let_def split: sum.splits if_splits)
  from assms(1,2) have "0 < ?n" by linarith
  then have "(0::int) < 2 * ?n ^ 3 \<or> arvore grafo s Map.empty" by simp
  from random_walk_arvore [OF inv_laco_inicio [OF assms(5)] this rw]
  have "arvore grafo s v" "v t \<noteq> None" by simp_all
  from arvore_reconstruir [OF this] rc
  have c: "caminho \<noteq> []" "hd caminho = s" "last caminho = t" "passeio grafo caminho"
    by auto
  from c(1,2) have 1: "py_index caminho 0 = Inr s"
    by (simp add: py_index_def hd_conv_nth)
  from c(1) have l: "0 < length caminho" by simp
  then have "nat (int (length caminho) + - 1) = length caminho - 1" by linarith
  with c(1,3) l have 2: "py_index caminho (- 1) = Inr t"
    by (simp add: py_index_def last_conv_nth Suc_le_eq)
  from c(4) have "\<forall>k. Suc k < length caminho \<longrightarrow> aresta grafo (caminho ! k) (caminho ! Suc k)"
    by (simp add: passeio_nth)
  with 1 2 show ?thesis by simp
qed

theorem existe_caminho_passeio_witness:
  "(0::int) \<le> 0 \<and> (0::int) < int (length [[0, 1, 1, 0], [1, 0, 0, 1], [1, 0, 0, 1], [0, 1, 1, 0::int]])
   \<and> (0::int) \<le> 3 \<and> (3::int) < int (length [[0, 1, 1, 0], [1, 0, 0, 1], [1, 0, 0, 1], [0, 1, 1, 0::int]])
   \<and> (0::int) \<noteq> 3
   \<and> existe_caminho [[0, 1, 1, 0], [1, 0, 0, 1], [1, 0, 0, 1], [0, 1, 1, 0]] 0 3 (\<lambda>_. 1)
       = Some (Inr (True, [0, 2, 3], 2))
   \<and> py_index [0, 2, 3] 0 = Inr (0::int) \<and> py_index [0, 2, 3] (- 1) = Inr (3::int)
   \<and> aresta [[0, 1, 1, 0], [1, 0, 0, 1], [1, 0, 0, 1], [0, 1, 1, 0]] 0 2
   \<and> aresta [[0, 1, 1, 0], [1, 0, 0, 1], [1, 0, 0, 1], [0, 1, 1, 0]] 2 3"
  using existe_caminho_passeio
          [of 0 "[[0, 1, 1, 0], [1, 0, 0, 1], [1, 0, 0, 1], [0, 1, 1, 0]]" 3 "\<lambda>_. 1"
              "[0, 2, 3]" 2]
  by (simp add: existe_caminho_def random_walk.simps iteracao_def registra_def py_index_def
        vizinhos_de_def random_choice_def enumerate_eq_zip reconstruir_caminho_def
        reconstruir_laco.simps dict_get_def aresta_def)

section \<open>The predecessors form a tree\<close>

text \<open>
  C9, as the code has it. In a walk from \<open>s\<close> to another vertex \<open>t\<close>, started
  with the empty dictionary, from the first recording on: the dictionary at the head of
  the loop after one pass or more, the
  dictionary after the current vertex is recorded in any pass, and the dictionary
  returned (when \<open>0 < n\<close>, so that the loop is entered) are rooted at \<open>s\<close>:
  every stored predecessor is a key, \<open>s\<close> is the one key stored with
  \<^verbatim>\<open>None\<close>, and following the links from any key ends.
\<close>

theorem arvore_de_antecessores:
  assumes "s \<noteq> t"
  shows "(apos k Map.empty grafo s None t 0 n rnd = Some (v, a, p, j, rnd')
          \<longrightarrow> (0 < k \<longrightarrow> enraizada s v)
              \<and> (j < 2 * n ^ 3 \<longrightarrow> enraizada s (registra v a p)))
         \<and> (0 < n \<and> random_walk Map.empty grafo s None t 0 n rnd = Inr (f, w, j')
          \<longrightarrow> enraizada s w)"
proof -
  note ini = inv_laco_inicio [OF assms, of grafo]
  have "(0 < k \<longrightarrow> enraizada s v) \<and> (j < 2 * n ^ 3 \<longrightarrow> enraizada s (registra v a p))"
    if ap: "apos k Map.empty grafo s None t 0 n rnd = Some (v, a, p, j, rnd')"
  proof -
    from apos_inv_laco [OF ini ap] have i: "inv_laco grafo s t v a p"
      and k: "0 < k \<longrightarrow> arvore grafo s v" by simp_all
    from inv_laco_registra [OF i] have "arvore grafo s (registra v a p)" by simp
    with k show ?thesis by (auto intro: arvore_enraizada)
  qed
  moreover have "enraizada s w"
    if "0 < n" and rw: "random_walk Map.empty grafo s None t 0 n rnd = Inr (f, w, j')"
  proof -
    from that(1) have "(0::int) < 2 * n ^ 3 \<or> arvore grafo s Map.empty" by simp
    from random_walk_arvore [OF ini this rw] show ?thesis by (auto intro: arvore_enraizada)
  qed
  ultimately show ?thesis by blast
qed

theorem arvore_de_antecessores_witness:
  "(0::int) \<noteq> 3
   \<and> apos (Suc 0) Map.empty [[0, 1, 1, 0], [1, 0, 0, 1], [1, 0, 0, 1], [0, 1, 1, 0]] 0 None 3 0 4
        (\<lambda>_. 1)
       = Some ([0 \<mapsto> None], 2, Some 0, 1, \<lambda>_. 1)
   \<and> (0::nat) < Suc 0 \<and> enraizada 0 [0 \<mapsto> None]
   \<and> (1::int) < 2 * 4 ^ 3 \<and> enraizada 0 (registra [0 \<mapsto> None] 2 (Some 0))
   \<and> (0::int) < 4
   \<and> random_walk Map.empty [[0, 1, 1, 0], [1, 0, 0, 1], [1, 0, 0, 1], [0, 1, 1, 0]] 0 None 3 0 4
        (\<lambda>_. 1)
       = Inr (True, [0 \<mapsto> None, 2 \<mapsto> Some 0, 3 \<mapsto> Some 2], 2)
   \<and> enraizada 0 [0 \<mapsto> None, 2 \<mapsto> Some 0, 3 \<mapsto> Some 2]"
  using arvore_de_antecessores
          [of 0 3 "Suc 0" "[[0, 1, 1, 0], [1, 0, 0, 1], [1, 0, 0, 1], [0, 1, 1, 0]]" 4 "\<lambda>_. 1"
              "[0 \<mapsto> None]" 2 "Some 0" 1 "\<lambda>_. 1" True
              "[0 \<mapsto> None, 2 \<mapsto> Some 0, 3 \<mapsto> Some 2]" 2]
  by (simp add: random_walk.simps iteracao_def registra_def py_index_def
        vizinhos_de_def random_choice_def enumerate_eq_zip)

text \<open>
  Before the first pass the dictionary is still empty: the start vertex is not yet a
  key, and no key is stored with \<^verbatim>\<open>None\<close>.
\<close>

theorem arvore_de_antecessores_counterexample:
  "apos 0 Map.empty [[0, 1], [1, 0]] 0 None 1 0 2 id = Some (Map.empty, 0, None, 0, id)
   \<and> (0::int) \<noteq> 1
   \<and> \<not> enraizada 0 Map.empty"
  by (simp add: enraizada_def)

section \<open>Queries that return\<close>

lemma iteracao_Falha:
  "iteracao visitados grafo atual antecessor vertice_final i r = Falha e
   \<Longrightarrow> py_index grafo atual = Inl e"
  by (auto simp: iteracao_def Let_def split: sum.splits if_splits)

lemma iteracao_Segue_vizinho:
  assumes "iteracao visitados grafo atual antecessor vertice_final i r = Segue v a p j"
  shows "\<exists>linha. py_index grafo atual = Inr linha \<and> a \<in> set (vizinhos_de linha)"
proof -
  from assms obtain linha where l: "py_index grafo atual = Inr linha"
    by (auto simp: iteracao_def Let_def split: sum.splits)
  from assms l have ne: "vizinhos_de linha \<noteq> []"
    by (auto simp: iteracao_def Let_def split: if_splits)
  with assms l have "a = random_choice r (vizinhos_de linha)"
    by (auto simp: iteracao_def Let_def split: if_splits)
  with ne have "a \<in> set (vizinhos_de linha)" by (simp add: random_choice_in)
  with l show ?thesis by blast
qed

lemma random_walk_sem_erro:
  "\<forall>linha \<in> set grafo. length linha \<le> length grafo \<Longrightarrow> 0 \<le> atual
   \<Longrightarrow> atual < int (length grafo)
   \<Longrightarrow> random_walk visitados grafo atual antecessor vertice_final i n rnd \<noteq> Inl e"
proof (induction visitados grafo atual antecessor vertice_final i n rnd rule: random_walk.induct)
  case (1 visitados grafo atual antecessor vertice_final i n rnd)
  from "1.prems"(2,3) have ix: "py_index grafo atual = Inr (grafo ! nat atual)"
    by (rule py_index_valido)
  show ?case
  proof (cases "i < 2 * n ^ 3")
    case False
    then show ?thesis by (simp add: random_walk.simps)
  next
    case True
    show ?thesis
    proof (cases "iteracao visitados grafo atual antecessor vertice_final i (rnd 0)")
      case (Falha e')
      from iteracao_Falha [OF this] ix show ?thesis by simp
    next
      case (Devolve f' v' j')
      with True show ?thesis by (simp add: random_walk.simps)
    next
      case (Segue v' a' p' j')
      from iteracao_Segue_vizinho [OF Segue] ix
      have "a' \<in> set (vizinhos_de (grafo ! nat atual))" by auto
      then have a: "0 \<le> a'" "nat a' < length (grafo ! nat atual)"
        by (simp_all add: set_vizinhos_de)
      from "1.prems"(2,3) have "grafo ! nat atual \<in> set grafo" by simp
      with "1.prems"(1) have "length (grafo ! nat atual) \<le> length grafo" by blast
      with a have "a' < int (length grafo)" by linarith
      from "1.IH" [OF True Segue "1.prems"(1) a(1) this] True Segue show ?thesis
        by (simp add: random_walk.simps)
    qed
  qed
qed

text \<open>
  Between two different valid vertices the call never loops; in a graph whose rows are
  no longer than the graph it does not raise either.
\<close>

lemma existe_caminho_termina:
  assumes "0 \<le> s" "s < int (length grafo)" "s \<noteq> t"
  shows "existe_caminho grafo s t rnd \<noteq> None"
proof (cases "random_walk Map.empty grafo s None t 0 (int (length grafo)) rnd")
  case (Inl e)
  then show ?thesis by (simp add: existe_caminho_def)
next
  case (Inr r)
  obtain f v j where r: "r = (f, v, j)" by (cases r)
  show ?thesis
  proof (cases f)
    case False
    with Inr r show ?thesis by (simp add: existe_caminho_def)
  next
    case True
    from assms(1,2) have "0 < int (length grafo)" by linarith
    then have "(0::int) < 2 * int (length grafo) ^ 3 \<or> arvore grafo s Map.empty" by simp
    from random_walk_arvore [OF inv_laco_inicio [OF assms(3)] this Inr [unfolded r]] True
    have "arvore grafo s v" "v t \<noteq> None" by simp_all
    from arvore_reconstruir [OF this] obtain c where "reconstruir_caminho v t = Some c"
      by blast
    with Inr r True show ?thesis by (simp add: existe_caminho_def)
  qed
qed

lemma existe_caminho_retorna:
  assumes "0 \<le> s" "s < int (length grafo)" "s \<noteq> t"
    and "\<forall>linha \<in> set grafo. length linha \<le> length grafo"
  shows "\<exists>r. existe_caminho grafo s t rnd = Some (Inr r)"
proof -
  from existe_caminho_termina [OF assms(1-3)] obtain x where
    x: "existe_caminho grafo s t rnd = Some x" by blast
  show ?thesis
  proof (cases x)
    case (Inl e)
    with x have "random_walk Map.empty grafo s None t 0 (int (length grafo)) rnd = Inl e"
      by (auto simp: existe_caminho_def Let_def split: if_splits sum.splits)
    with random_walk_sem_erro [OF assms(4,1,2)] show ?thesis by blast
  next
    case (Inr r)
    with x show ?thesis by blast
  qed
qed

section \<open>A query from a vertex to itself\<close>

lemma elos_ciclo:
  "x = 0 \<or> x = 1 \<Longrightarrow> \<not> elos [0 \<mapsto> None, 1 \<mapsto> Some 0, 0 \<mapsto> Some (1::int)] (Some (x::int)) l"
  by (induction l arbitrary: x) (auto simp: dict_get_def)

text \<open>
  C3. The query from vertex \<open>0\<close> to vertex \<open>0\<close> in the graph of two joined
  vertices never returns, whatever the generator draws: the walk goes to \<open>1\<close> and
  back, stores \<open>1\<close> as the predecessor of \<open>0\<close> over \<^verbatim>\<open>None\<close>, and the loop of
  \<^verbatim>\<open>reconstruir_caminho\<close> goes round \<open>0\<close> and \<open>1\<close> for ever.
\<close>

theorem existe_caminho_nao_retorna: "existe_caminho [[0, 1], [1, 0]] 0 0 rnd = None"
proof -
  let ?m = "[0 \<mapsto> None, 1 \<mapsto> Some 0, 0 \<mapsto> Some (1::int)]"
  have rw: "random_walk Map.empty [[0, 1], [1, 0]] 0 None 0 0 2 rnd = Inr (True, ?m, 2)"
    by (simp add: random_walk.simps iteracao_def registra_def py_index_def vizinhos_de_def
          random_choice_def enumerate_eq_zip)
  have "reconstruir_caminho ?m 0 = None"
  proof (cases "reconstruir_caminho ?m 0")
    case (Some c)
    then have "elos ?m (Some 0) (rev c)" by (simp add: reconstruir_caminho_elos)
    with elos_ciclo [of 0 "rev c"] show ?thesis by simp
  qed simp
  with rw show ?thesis by (simp add: existe_caminho_def)
qed

lemma existe_caminho_beco:
  assumes "0 \<le> s" "s < int (length grafo)" "0 \<le> t" "t < int (length grafo)"
    and "1 \<notin> set (grafo ! nat s)"
  shows "existe_caminho grafo s t rnd = Some (Inr (False, [], 0))"
proof -
  let ?n = "int (length grafo)"
  from assms(1,2) have "0 < ?n" by linarith
  then have c: "(0::int) < 2 * ?n ^ 3" by (rule limite_positivo)
  from assms(1,2) have "py_index grafo s = Inr (grafo ! nat s)" by (rule py_index_valido)
  moreover from assms(5) have "vizinhos_de (grafo ! nat s) = []" by (simp add: vizinhos_de_Nil)
  ultimately have "iteracao Map.empty grafo s None t 0 (rnd 0)
                     = Devolve False (registra Map.empty s None) 0"
    by (simp add: iteracao_def)
  with c have "random_walk Map.empty grafo s None t 0 ?n rnd
                 = Inr (False, registra Map.empty s None, 0)"
    by (simp add: random_walk.simps)
  with assms(1-4) show ?thesis by (simp add: existe_caminho_def)
qed

text \<open>
  C4, as the code has it. A query from a valid vertex \<open>v\<close> to itself is not a special
  case: it never returns found with \<open>0\<close> iterations, nor found with the path
  \<open>[v]\<close>; and when \<open>v\<close> has no neighbours it returns \<open>(False, [], 0)\<close>.
\<close>

theorem existe_caminho_mesmo_vertice:
  assumes "0 \<le> v" "v < int (length grafo)"
  shows "(\<forall>c. existe_caminho grafo v v rnd \<noteq> Some (Inr (True, c, 0)))
         \<and> (\<forall>i. existe_caminho grafo v v rnd \<noteq> Some (Inr (True, [v], i)))
         \<and> (1 \<notin> set (grafo ! nat v)
             \<longrightarrow> existe_caminho grafo v v rnd = Some (Inr (False, [], 0)))"
proof (intro conjI allI impI)
  fix c
  show "existe_caminho grafo v v rnd \<noteq> Some (Inr (True, c, 0))"
  proof
    assume "existe_caminho grafo v v rnd = Some (Inr (True, c, 0))"
    then obtain w where
      "random_walk Map.empty grafo v None v 0 (int (length grafo)) rnd = Inr (True, w, 0)"
      by (auto simp: existe_caminho_def Let_def split: if_splits sum.splits)
    from random_walk_contador [OF this] show False by simp
  qed
next
  fix i
  show "existe_caminho grafo v v rnd \<noteq> Some (Inr (True, [v], i))"
  proof
    assume "existe_caminho grafo v v rnd = Some (Inr (True, [v], i))"
    then obtain w where
      rw: "random_walk Map.empty grafo v None v 0 (int (length grafo)) rnd = Inr (True, w, i)"
      and rc: "reconstruir_caminho w v = Some [v]"
      by (auto simp: existe_caminho_def Let_def split: if_splits sum.splits)
    from rc have "dict_get w v = None" by (simp add: reconstruir_caminho_elos)
    moreover from random_walk_encontrado [OF rw] obtain a where "w v = Some (Some a)" by blast
    ultimately show False by (simp add: dict_get_def)
  qed
next
  assume "1 \<notin> set (grafo ! nat v)"
  with assms show "existe_caminho grafo v v rnd = Some (Inr (False, [], 0))"
    by (intro existe_caminho_beco)
qed

theorem existe_caminho_mesmo_vertice_witness:
  "(0::int) \<le> 4
   \<and> (4::int) < int (length [[0, 1, 0, 1, 0], [1, 0, 1, 0, 0], [0, 1, 0, 1, 0],
                              [1, 0, 1, 0, 0], [0, 0, 0, 0, 0::int]])
   \<and> (1::int) \<notin> set ([[0, 1, 0, 1, 0], [1, 0, 1, 0, 0], [0, 1, 0, 1, 0], [1, 0, 1, 0, 0],
                        [0, 0, 0, 0, 0]] ! nat 4)
   \<and> existe_caminho
        [[0, 1, 0, 1, 0], [1, 0, 1, 0, 0], [0, 1, 0, 1, 0], [1, 0, 1, 0, 0], [0, 0, 0, 0, 0]]
        4 4 (\<lambda>_. 0)
      = Some (Inr (False, [], 0))"
  using existe_caminho_mesmo_vertice
          [of 4 "[[0, 1, 0, 1, 0], [1, 0, 1, 0, 0], [0, 1, 0, 1, 0], [1, 0, 1, 0, 0],
                  [0, 0, 0, 0, 0]]" "\<lambda>_. 0"]
  by simp

text \<open>
  On the graph of one vertex without an edge, the query from vertex \<open>0\<close> to
  itself returns not found, with the empty path and \<open>0\<close> iterations.
\<close>

theorem existe_caminho_mesmo_vertice_counterexample:
  "existe_caminho [[0]] 0 0 id = Some (Inr (False, [], 0))
   \<and> existe_caminho [[0]] 0 0 id \<noteq> Some (Inr (True, [0], 0))"
  by (simp add: existe_caminho_def random_walk.simps iteracao_def registra_def py_index_def
        vizinhos_de_def enumerate_eq_zip)

end
